theory Spec2Isabelle
  imports Complex_Main "HOL-Library.Word"
begin

unbundle bit_operations_syntax

section \<open>The market making engine (engine.ts)\<close>

text \<open>
  The engine computes on JavaScript numbers. A finite number is carried as the real it
  denotes, and arithmetic is exact: rounding and overflow of IEEE doubles are outside this
  development. The three non-finite numbers are kept as values of their own where the code
  tests for them, in the fields of a quote.
\<close>

subsection \<open>Data model\<close>

datatype number = Num real | PosInfinity | NegInfinity | NaN

text \<open>\<^verbatim>\<open>Scenario\<close> (scenarios.ts): only \<open>trueValue\<close> is read by the engine.\<close>

record scenario =
  scenario_id :: string
  prompt :: string
  unit_name :: string
  trueValue :: real
  scenario_min :: "real option"
  scenario_max :: "real option"
  hint :: "string option"
  tags :: "string list option"

datatype spreadType = predefined | percent

record settings =
  durationSec :: real
  spreadType :: spreadType
  predefinedSpread :: real
  percentSpread :: real
  inventoryLimit :: real
  riskAversion :: real
  invSkew :: real
  spreadWiden :: real
  seed :: "real option"

record quote =
  bid :: number
  ask :: number

datatype side = BUY | SELL

record fill =
  side :: side
  price :: real
  qty :: real
  scenario :: scenario
  fair :: real
  ts :: int

record state =
  cash :: real
  inv :: real
  realized :: real
  lastMark :: "real option"
  fills :: "fill list"

definition clamp :: "real \<Rightarrow> real \<Rightarrow> real \<Rightarrow> real" where
  "clamp x lo hi = min hi (max lo x)"

subsection \<open>The random number generator\<close>

text \<open>
  \<^verbatim>\<open>seed >>> 0\<close>: the seed is truncated towards zero and reduced modulo \<open>2 ^ 32\<close>.
\<close>

definition toUint32 :: "real \<Rightarrow> 32 word" where
  "toUint32 x = word_of_int (if 0 \<le> x then \<lfloor>x\<rfloor> else \<lceil>x\<rceil>)"

text \<open>
  \<^verbatim>\<open>mulberry32(seed)\<close> returns a closure over the 32-bit variable \<open>a\<close>; the closure is
  the value of \<open>a\<close>, and one call of it is \<open>mulberry32_next\<close>, which returns the draw
  and the new \<open>a\<close>. \<^verbatim>\<open>Math.imul\<close> is the product modulo \<open>2 ^ 32\<close>, \<^verbatim>\<open>>>>\<close> the logical
  shift, and the sum \<^verbatim>\<open>t + Math.imul(..)\<close> of two 32-bit values is exact in a double and
  reduced modulo \<open>2 ^ 32\<close> by the \<^verbatim>\<open>^\<close> that follows.
\<close>

definition mulberry32 :: "real \<Rightarrow> 32 word" where
  "mulberry32 sd = toUint32 sd"

definition mulberry32_next :: "32 word \<Rightarrow> real \<times> 32 word" where
  "mulberry32_next a0 =
     (let a = a0 + 0x6d2b79f5;
          t = (a XOR drop_bit 15 a) * (1 OR a);
          t' = (t + (t XOR drop_bit 7 t) * (61 OR t)) XOR t
      in (real (unat (t' XOR drop_bit 14 t')) / 4294967296, a))"

text \<open>
  The engine's \<open>rng\<close> field is the seeded generator when the settings carry a seed and
  \<^verbatim>\<open>Math.random\<close> otherwise. \<^verbatim>\<open>Math.random\<close> is a source of numbers outside the program:
  it is the sequence of the values it will return, with the position reached.
\<close>

datatype rng = Mulberry32 "32 word" | MathRandom "nat \<Rightarrow> real" nat

fun rng_draw :: "rng \<Rightarrow> real \<times> rng" where
  "rng_draw (Mulberry32 a) = (let (x, a') = mulberry32_next a in (x, Mulberry32 a'))"
| "rng_draw (MathRandom env i) = (env i, MathRandom env (Suc i))"

subsection \<open>The engine\<close>

record engine =
  settings :: settings
  rng :: rng
  state :: state

datatype error = BadQuote | NonPositive | BidNotBelowAsk

text \<open>
  The constructor. \<open>env\<close> is what \<^verbatim>\<open>Math.random\<close> will return; it is used only when
  the settings have no seed.
\<close>

definition construct :: "settings \<Rightarrow> (nat \<Rightarrow> real) \<Rightarrow> engine" where
  "construct st env =
     \<lparr> settings = st,
       rng = (case seed st of Some sd \<Rightarrow> Mulberry32 (mulberry32 sd) | None \<Rightarrow> MathRandom env 0),
       state = \<lparr> cash = 0, inv = 0, realized = 0, lastMark = None, fills = [] \<rparr> \<rparr>"

text \<open>
  \<open>sampleFair\<close> draws \<open>u\<close> first and the argument of the cosine second.
\<close>

definition sampleFair :: "real \<Rightarrow> rng \<Rightarrow> real \<times> rng" where
  "sampleFair tv g =
     (let (u, g1) = rng_draw g;
          sigma = 0.18;
          (v, g2) = rng_draw g1;
          z = sqrt (- 2 * ln (max (1 / 10 ^ 12) u)) * cos (2 * pi * v);
          mult = exp (sigma * z)
      in (tv * mult, g2))"

text \<open>
  \<open>quoteSanity\<close> throws one of three errors or returns; when it returns both numbers are
  finite, and the model hands their values on.
\<close>

fun quoteSanity :: "quote \<Rightarrow> error + real \<times> real" where
  "quoteSanity q =
     (case (bid q, ask q) of
        (Num b, Num a) \<Rightarrow>
          if b \<le> 0 \<or> a \<le> 0 then Inl NonPositive
          else if b \<ge> a then Inl BidNotBelowAsk
          else Inr (b, a)
      | _ \<Rightarrow> Inl BadQuote)"

text \<open>
  The body of \<open>submitQuote\<close> in the order of the source: the two logistic probabilities
  and the damping factor, the directional decision on the draw \<open>r\<close>, the random flow when
  there was no directional fill, the inventory limit, and the update of the ledger.
  \<open>now\<close> is the reading of \<^verbatim>\<open>Date.now()\<close> during the call; at most one fill record is built
  per call, so one reading is enough.
\<close>

definition scaleOf :: "scenario \<Rightarrow> real" where
  "scaleOf scn = max 1 (0.06 * trueValue scn)"

definition pBuy :: "real \<Rightarrow> real \<Rightarrow> scenario \<Rightarrow> real" where
  "pBuy fr a scn = 1 / (1 + exp (- (fr - a) / scaleOf scn))"

definition pSell :: "real \<Rightarrow> real \<Rightarrow> scenario \<Rightarrow> real" where
  "pSell fr b scn = 1 / (1 + exp (- (b - fr) / scaleOf scn))"

definition damp :: "engine \<Rightarrow> real" where
  "damp e =
     (let invPressure = \<bar>inv (state e)\<bar> / max 1 (inventoryLimit (settings e))
      in clamp (1 - 0.35 * invPressure) 0.35 1)"

definition directionalFill ::
  "real \<Rightarrow> real \<Rightarrow> real \<Rightarrow> scenario \<Rightarrow> real \<Rightarrow> int \<Rightarrow> real \<Rightarrow> real \<Rightarrow> fill option" where
  "directionalFill b a n scn fr now dmp r =
     (if pBuy fr a scn * dmp > 0.60 \<and> r < pBuy fr a scn * dmp
      then Some \<lparr> side = SELL, price = a, qty = n, scenario = scn, fair = fr, ts = now \<rparr>
      else if pSell fr b scn * dmp > 0.60 \<and> r < pSell fr b scn * dmp
      then Some \<lparr> side = BUY, price = b, qty = n, scenario = scn, fair = fr, ts = now \<rparr>
      else None)"

definition randomFlow ::
  "real \<Rightarrow> real \<Rightarrow> real \<Rightarrow> scenario \<Rightarrow> real \<Rightarrow> int \<Rightarrow> real \<Rightarrow> rng \<Rightarrow> fill option \<times> rng" where
  "randomFlow b a n scn fr now dmp g =
     (let (flow, g1) = rng_draw g
      in if flow < 0.06 * dmp
         then (let (s, g2) = rng_draw g1
               in (if s < 0.5
                   then Some \<lparr> side = BUY, price = b, qty = n, scenario = scn, fair = fr, ts = now \<rparr>
                   else Some \<lparr> side = SELL, price = a, qty = n, scenario = scn, fair = fr, ts = now \<rparr>,
                   g2))
         else (None, g1))"

definition candidate ::
  "real \<Rightarrow> real \<Rightarrow> real \<Rightarrow> scenario \<Rightarrow> int \<Rightarrow> engine \<Rightarrow> fill option \<times> rng" where
  "candidate b a n scn now e =
     (let (fr, g1) = sampleFair (trueValue scn) (rng e);
          dmp = damp e;
          (r, g2) = rng_draw g1
      in case directionalFill b a n scn fr now dmp r of
           Some f \<Rightarrow> (Some f, g2)
         | None \<Rightarrow> randomFlow b a n scn fr now dmp g2)"

definition applyFill :: "fill \<Rightarrow> scenario \<Rightarrow> state \<Rightarrow> state" where
  "applyFill f scn s =
     (let s1 = (if side f = BUY
                then s\<lparr> inv := inv s + qty f, cash := cash s - price f * qty f \<rparr>
                else s\<lparr> inv := inv s - qty f, cash := cash s + price f * qty f \<rparr>)
      in s1\<lparr> fills := fills s1 @ [f], lastMark := Some (trueValue scn) \<rparr>)"

text \<open>
  A call returns what the method returns or throws (\<open>Inl\<close>), and the engine after the call.
  The quantity is optional and defaults to 1.
\<close>

definition submitQuote ::
  "quote \<Rightarrow> scenario \<Rightarrow> real option \<Rightarrow> int \<Rightarrow> engine \<Rightarrow> (error + fill option) \<times> engine" where
  "submitQuote q scn qtyArg now e =
     (case quoteSanity q of
        Inl err \<Rightarrow> (Inl err, e)
      | Inr (b, a) \<Rightarrow>
          (let n = (case qtyArg of None \<Rightarrow> 1 | Some k \<Rightarrow> k);
               (cand, g) = candidate b a n scn now e;
               e1 = e\<lparr> rng := g \<rparr>
           in case cand of
                None \<Rightarrow> (Inr None, e1)
              | Some f \<Rightarrow>
                  (let nextInv = inv (state e1) + (if side f = BUY then qty f else - qty f)
                   in if \<bar>nextInv\<bar> > inventoryLimit (settings e1) then (Inr None, e1)
                      else (Inr (Some f), e1\<lparr> state := applyFill f scn (state e1) \<rparr>))))"

record pnlResult =
  pnl_cash :: real
  pnl_inv :: real
  mtm :: real
  riskAdj :: real

definition pnl :: "real \<Rightarrow> engine \<Rightarrow> pnlResult \<times> engine" where
  "pnl mark e =
     (let unreal = inv (state e) * mark;
          raw = cash (state e) + unreal;
          riskPenalty = riskAversion (settings e) * \<bar>inv (state e)\<bar> * 0.01 * mark
      in (\<lparr> pnl_cash = cash (state e), pnl_inv = inv (state e), mtm = raw,
            riskAdj = raw - riskPenalty \<rparr>, e))"

text \<open>\<open>defaultQuote\<close> returns an object with two computed numbers, here two reals.\<close>

record quoteResult =
  q_bid :: real
  q_ask :: real

definition defaultQuote :: "real \<Rightarrow> engine \<Rightarrow> quoteResult \<times> engine" where
  "defaultQuote estimate e =
     (let i = inv (state e);
          invLimit = max 1 (inventoryLimit (settings e));
          invNorm = clamp (i / invLimit) (- 1) 1;
          baseHalf = (if spreadType (settings e) = percent
                      then max (estimate * percentSpread (settings e) * 0.5) (1 / 10 ^ 6)
                      else max (predefinedSpread (settings e) * 0.5) (1 / 10 ^ 6));
          widen = 1 + spreadWiden (settings e) * \<bar>invNorm\<bar>;
          half = baseHalf * widen;
          midShift = - invSkew (settings e) * invNorm * half;
          mid = estimate + midShift
      in (\<lparr> q_bid = max (1 / 10 ^ 6) (mid - half), q_ask = mid + half \<rparr>, e))"

definition breakEven :: "engine \<Rightarrow> real option \<times> engine" where
  "breakEven e =
     (if inv (state e) = 0 then (None, e)
      else (Some (- cash (state e) / inv (state e)), e))"

subsection \<open>Running an engine\<close>

text \<open>
  A call of \<open>submitQuote\<close> with its arguments and the clock reading during it, and a
  session of such calls on one engine: the outcomes in order and the engine at the end.
\<close>

record call =
  c_quote :: quote
  c_scenario :: scenario
  c_qty :: "real option"
  c_now :: int

fun submitAll :: "call list \<Rightarrow> engine \<Rightarrow> (error + fill option) list \<times> engine" where
  "submitAll [] e = ([], e)"
| "submitAll (c # cs) e =
     (let (r, e1) = submitQuote (c_quote c) (c_scenario c) (c_qty c) (c_now c) e;
          (rs, e2) = submitAll cs e1
      in (r # rs, e2))"

text \<open>Any of the engine's public methods, and a session of them; results are dropped.\<close>

datatype operation =
  SubmitQuote quote scenario "real option" int
| Pnl real
| DefaultQuote real
| BreakEven

fun perform :: "operation \<Rightarrow> engine \<Rightarrow> engine" where
  "perform (SubmitQuote q scn n now) e = snd (submitQuote q scn n now e)"
| "perform (Pnl mark) e = snd (pnl mark e)"
| "perform (DefaultQuote estimate) e = snd (defaultQuote estimate e)"
| "perform BreakEven e = snd (breakEven e)"

fun performAll :: "operation list \<Rightarrow> engine \<Rightarrow> engine" where
  "performAll [] e = e"
| "performAll (x # xs) e = performAll xs (perform x e)"

subsection \<open>Concrete inputs\<close>

text \<open>
  The settings main.ts starts with, the seed being \<open>todaySeed()\<close> on 1 January 2025, and
  one scenario of the catalogue.
\<close>

definition initialSettings :: settings where
  "initialSettings =
     \<lparr> durationSec = 600, spreadType = predefined, predefinedSpread = 10,
       percentSpread = 0.05, inventoryLimit = 10, riskAversion = 1.0, invSkew = 0.35,
       spreadWiden = 0.6, seed = Some 20250101 \<rparr>"

definition dowMembers :: scenario where
  "dowMembers =
     \<lparr> scenario_id = ''dow-members'',
       prompt = ''How many companies are in the Dow Jones Industrial Average?'',
       unit_name = ''companies'', trueValue = 30, scenario_min = Some 5,
       scenario_max = Some 100, hint = Some ''Small index.'',
       tags = Some [''facts'', ''markets''] \<rparr>"

text \<open>A quote far above that scenario's value, and the fill it gets from the seeded engine.\<close>

definition highQuote :: quote where
  "highQuote = \<lparr> bid = Num 1000, ask = Num 2000 \<rparr>"

definition firstFill :: "real \<Rightarrow> int \<Rightarrow> fill" where
  "firstFill n now =
     \<lparr> side = BUY, price = 1000, qty = n, scenario = dowMembers,
       fair = fst (sampleFair 30 (Mulberry32 20250101)), ts = now \<rparr>"

text \<open>
  The same settings with a limit of one unit and an inventory skew of 2, and the engine
  they give after one call with \<open>highQuote\<close>.
\<close>

definition skewSettings :: settings where
  "skewSettings = initialSettings\<lparr> inventoryLimit := 1, invSkew := 2 \<rparr>"

definition longEngine :: engine where
  "longEngine = snd (submitQuote highQuote dowMembers None 0 (construct skewSettings (\<lambda>i. 0)))"

subsection \<open>Comparing runs up to the clock\<close>

text \<open>
  A fill and an outcome with the timestamp blanked, and two engines that agree on
  everything except the timestamps of the fills they recorded.
\<close>

definition eraseTs :: "fill \<Rightarrow> fill" where
  "eraseTs f = f\<lparr> ts := 0 \<rparr>"

definition eraseResultTs :: "error + fill option \<Rightarrow> error + fill option" where
  "eraseResultTs r = map_sum id (map_option eraseTs) r"

definition sameButTs :: "engine \<Rightarrow> engine \<Rightarrow> bool" where
  "sameButTs e e' \<longleftrightarrow>
     settings e = settings e' \<and> rng e = rng e'
     \<and> cash (state e) = cash (state e') \<and> inv (state e) = inv (state e')
     \<and> realized (state e) = realized (state e') \<and> lastMark (state e) = lastMark (state e')
     \<and> map eraseTs (fills (state e)) = map eraseTs (fills (state e'))"

section \<open>Properties\<close>

subsection \<open>The logistic probabilities and the damping factor\<close>

lemma scaleOf_ge_one: "1 \<le> scaleOf scn"
  by (simp add: scaleOf_def)

lemma damp_bounds: "0.35 \<le> damp e \<and> damp e \<le> 1"
  by (simp add: damp_def clamp_def Let_def)

lemma inv_one_plus_le_half: "1 \<le> (E::real) \<Longrightarrow> 1 / (1 + E) \<le> 1 / 2"
  by (simp add: field_simps)

lemma logistic_gt_imp_pos:
  assumes "0 < s" and "1 / (1 + exp (- x / s)) > (0.6::real)"
  shows "0 < x"
proof (rule ccontr)
  assume "\<not> 0 < x"
  then have "0 \<le> - x / s" using assms(1) by (simp add: field_simps)
  then have "1 \<le> exp (- x / s)" by simp
  then have "1 / (1 + exp (- x / s)) \<le> 1 / 2"
    by (rule inv_one_plus_le_half)
  with assms(2) show False by simp
qed

lemma logistic_bounds: "0 < 1 / (1 + exp (y::real)) \<and> 1 / (1 + exp y) < 1"
proof -
  have "0 < exp y" by simp
  then show ?thesis by (simp add: field_simps add_pos_pos)
qed

lemma pBuy_gate_pos:
  assumes "pBuy fr a scn * damp e > 0.60"
  shows "a < fr"
proof -
  have d: "0.35 \<le> damp e" "damp e \<le> 1" using damp_bounds by auto
  have p: "0 < pBuy fr a scn" unfolding pBuy_def using logistic_bounds by blast
  have "pBuy fr a scn * damp e \<le> pBuy fr a scn"
    using d p by (simp add: mult_left_le)
  moreover have "6 / 10 < pBuy fr a scn * damp e" using assms by simp
  ultimately have "pBuy fr a scn > 0.6" by simp
  moreover have "0 < scaleOf scn" using scaleOf_ge_one [of scn] by linarith
  ultimately have "0 < fr - a"
    unfolding pBuy_def by (rule logistic_gt_imp_pos [rotated])
  then show ?thesis by simp
qed

lemma pSell_gate_pos:
  assumes "pSell fr b scn * damp e > 0.60"
  shows "fr < b"
proof -
  have d: "0.35 \<le> damp e" "damp e \<le> 1" using damp_bounds by auto
  have p: "0 < pSell fr b scn" unfolding pSell_def using logistic_bounds by blast
  have "pSell fr b scn * damp e \<le> pSell fr b scn"
    using d p by (simp add: mult_left_le)
  moreover have "6 / 10 < pSell fr b scn * damp e" using assms by simp
  ultimately have "pSell fr b scn > 0.6" by simp
  moreover have "0 < scaleOf scn" using scaleOf_ge_one [of scn] by linarith
  ultimately have "0 < b - fr"
    unfolding pSell_def by (rule logistic_gt_imp_pos [rotated])
  then show ?thesis by simp
qed

subsection \<open>Valuation\<close>

text \<open>
  Claim C7. \<open>pnl\<close> leaves the engine as it was, so a second call with the same mark
  returns the same result; its mark-to-market is \<open>cash + inv * mark\<close> and its risk-adjusted
  value is the mark-to-market less \<open>riskAversion * |inv| * 0.01 * mark\<close>. On a freshly
  constructed engine all four fields of the result are 0, whatever the mark.
\<close>

theorem pnl_spec:
  "snd (pnl mark e) = e
   \<and> fst (pnl mark (snd (pnl mark e))) = fst (pnl mark e)
   \<and> mtm (fst (pnl mark e)) = cash (state e) + inv (state e) * mark
   \<and> riskAdj (fst (pnl mark e)) =
       mtm (fst (pnl mark e)) - riskAversion (settings e) * \<bar>inv (state e)\<bar> * 0.01 * mark
   \<and> fst (pnl mark (construct st env)) = \<lparr> pnl_cash = 0, pnl_inv = 0, mtm = 0, riskAdj = 0 \<rparr>"
  by (simp add: pnl_def construct_def Let_def)

text \<open>
  Claim C8. \<open>breakEven\<close> returns nothing exactly when the inventory is 0, returns
  \<open>- cash / inv\<close> otherwise, and leaves the engine as it was.
\<close>

theorem breakEven_spec:
  "(fst (breakEven e) = None \<longleftrightarrow> inv (state e) = 0)
   \<and> (inv (state e) \<noteq> 0 \<longrightarrow> fst (breakEven e) = Some (- cash (state e) / inv (state e)))
   \<and> snd (breakEven e) = e"
  by (simp add: breakEven_def)

theorem breakEven_spec_witness:
  "inv (state ((construct initialSettings (\<lambda>i. 0))
         \<lparr> state := \<lparr> cash = - 100, inv = 2, realized = 0, lastMark = Some 30, fills = [] \<rparr> \<rparr>)) \<noteq> 0
   \<and> fst (breakEven ((construct initialSettings (\<lambda>i. 0))
         \<lparr> state := \<lparr> cash = - 100, inv = 2, realized = 0, lastMark = Some 30, fills = [] \<rparr> \<rparr>))
       = Some 50"
  using breakEven_spec [of "(construct initialSettings (\<lambda>i. 0))
         \<lparr> state := \<lparr> cash = - 100, inv = 2, realized = 0, lastMark = Some 30, fills = [] \<rparr> \<rparr>"]
  by simp

subsection \<open>Bounds on the sampled fair value, and one seeded call\<close>

text \<open>
  The Box-Muller radius is at most 15 because the uniform draw is floored at \<open>10 ^ -12\<close>,
  so the sampled fair value of a non-negative true value lies between 0 and 27 times it.
  With the seed 20250101 the first three draws are known, and a quote far above the true
  value is hit on its bid by the directional rule.
\<close>

lemma exp_three_le: "exp (3::real) \<le> 27"
proof -
  have "exp (3::real) = exp 1 * exp 1 * exp 1"
    by (simp add: exp_add [symmetric])
  also have "\<dots> \<le> 3 * 3 * 3"
    by (intro mult_mono exp_le) simp_all
  finally show ?thesis by simp
qed

lemma ln_ten_le: "ln (10::real) \<le> 9"
  using ln_le_minus_one [of "10::real"] by simp

lemma boxMuller_radius:
  assumes "u \<le> (1::real)"
  shows "0 \<le> sqrt (- 2 * ln (max (1 / 10 ^ 12) u)) \<and> sqrt (- 2 * ln (max (1 / 10 ^ 12) u)) \<le> 15"
proof -
  define m where "m = max (1 / 10 ^ 12) u"
  have m: "1 / 10 ^ 12 \<le> m" "m \<le> 1" "0 < m"
    using assms by (simp_all add: m_def max_def)
  have "ln m \<le> 0" using m by simp
  have "ln (1 / 10 ^ 12 :: real) \<le> ln m"
    using m by (subst ln_le_cancel_iff) simp_all
  moreover have "ln (1 / 10 ^ 12 :: real) = - (12 * ln 10)"
  proof -
    have "ln (1 / 10 ^ 12 :: real) = ln 1 - ln (10 ^ 12)"
      by (rule ln_divide_pos) simp_all
    also have "ln ((10::real) ^ 12) = real 12 * ln 10"
      by (rule ln_realpow)
    finally show ?thesis by simp
  qed
  ultimately have "- 108 \<le> ln m" using ln_ten_le by linarith
  then have "- 2 * ln m \<le> 225" by simp
  then have "sqrt (- 2 * ln m) \<le> sqrt 225" by (rule real_sqrt_le_mono)
  moreover have "sqrt (225::real) = 15"
    by (rule real_sqrt_unique) simp_all
  moreover have "0 \<le> sqrt (- 2 * ln m)" using \<open>ln m \<le> 0\<close> by simp
  ultimately show ?thesis by (simp add: m_def)
qed

lemma sampleFair_bounds:
  assumes "0 \<le> tv" and "fst (rng_draw g) \<le> 1"
  shows "0 \<le> fst (sampleFair tv g) \<and> fst (sampleFair tv g) \<le> 27 * tv"
proof -
  obtain u g1 where d1: "rng_draw g = (u, g1)" by (cases "rng_draw g")
  obtain v g2 where d2: "rng_draw g1 = (v, g2)" by (cases "rng_draw g1")
  define R where "R = sqrt (- 2 * ln (max (1 / 10 ^ 12) u))"
  define z where "z = R * cos (2 * pi * v)"
  have fr: "fst (sampleFair tv g) = tv * exp (0.18 * z)"
    by (simp add: sampleFair_def d1 d2 Let_def z_def R_def)
  have "u \<le> 1" using assms(2) d1 by simp
  then have R: "0 \<le> R" "R \<le> 15" using boxMuller_radius [of u] by (simp_all add: R_def)
  have "R * cos (2 * pi * v) \<le> R * 1"
    using R(1) by (intro mult_left_mono) simp_all
  then have "z \<le> 15" using R(2) by (simp add: z_def)
  then have "exp (0.18 * z) \<le> exp 3" by simp
  then have "exp (0.18 * z) \<le> 27" using exp_three_le by linarith
  then have "tv * exp (0.18 * z) \<le> tv * 27"
    using assms(1) by (rule mult_left_mono)
  moreover have "0 \<le> tv * exp (0.18 * z)" using assms(1) by simp
  ultimately show ?thesis by (simp add: fr)
qed

lemma pBuy_le_half: "fr \<le> a \<Longrightarrow> pBuy fr a scn \<le> 1 / 2"
proof -
  assume "fr \<le> a"
  moreover have "0 < scaleOf scn" using scaleOf_ge_one [of scn] by linarith
  ultimately have "0 \<le> - (fr - a) / scaleOf scn" by (simp add: field_simps)
  then have "1 \<le> exp (- (fr - a) / scaleOf scn)" by simp
  then show ?thesis unfolding pBuy_def by (rule inv_one_plus_le_half)
qed

lemma pSell_le_half: "b \<le> fr \<Longrightarrow> pSell fr b scn \<le> 1 / 2"
proof -
  assume "b \<le> fr"
  moreover have "0 < scaleOf scn" using scaleOf_ge_one [of scn] by linarith
  ultimately have "0 \<le> - (b - fr) / scaleOf scn" by (simp add: field_simps)
  then have "1 \<le> exp (- (b - fr) / scaleOf scn)" by simp
  then show ?thesis unfolding pSell_def by (rule inv_one_plus_le_half)
qed

lemma exp_minus_one_le_half: "exp (- 1 :: real) \<le> 1 / 2"
proof -
  have "(2::real) \<le> exp 1" using exp_ge_add_one_self [of "1::real"] by simp
  then have "inverse (exp (1::real)) \<le> inverse 2"
    by (intro le_imp_inverse_le) simp_all
  then show ?thesis by (simp add: exp_minus)
qed

lemma inv_one_plus_ge:
  assumes "X \<le> 1 / 2" and "0 < (X::real)"
  shows "2 / 3 \<le> 1 / (1 + X)"
proof -
  have "0 < 1 + X" using assms by simp
  moreover have "2 / 3 * (1 + X) \<le> 1" using assms by simp
  ultimately show ?thesis by (simp only: pos_le_divide_eq)
qed

lemma pSell_ge_two_thirds:
  assumes "scaleOf scn \<le> b - fr"
  shows "2 / 3 \<le> pSell fr b scn"
proof -
  have s: "0 < scaleOf scn" using scaleOf_ge_one [of scn] by linarith
  then have "1 \<le> (b - fr) / scaleOf scn" using assms by (simp add: field_simps)
  then have "- ((b - fr) / scaleOf scn) \<le> - 1" by linarith
  then have "- (b - fr) / scaleOf scn \<le> - 1" by (simp only: minus_divide_left)
  then have "exp (- (b - fr) / scaleOf scn) \<le> exp (- 1)" by (simp only: exp_le_cancel_iff)
  then have E: "exp (- (b - fr) / scaleOf scn) \<le> 1 / 2" using exp_minus_one_le_half by linarith
  have "0 < exp (- (b - fr) / scaleOf scn)" by simp
  with E show ?thesis unfolding pSell_def by (intro inv_one_plus_ge)
qed


lemma sampleFair_rng: "snd (sampleFair tv g) = snd (rng_draw (snd (rng_draw g)))"
  by (simp add: sampleFair_def Let_def split: prod.splits)

lemma seed_state: "mulberry32 20250101 = 20250101"
  by (simp add: mulberry32_def toUint32_def)

lemma seeded_draw1:
  "rng_draw (Mulberry32 20250101) = (3563980722 / 4294967296, Mulberry32 1851815914)"
  by (simp add: mulberry32_next_def Let_def)

lemma seeded_draw2:
  "rng_draw (Mulberry32 1851815914) = (44603434 / 4294967296, Mulberry32 3683381727)"
  by (simp add: mulberry32_next_def Let_def)

lemma seeded_draw3:
  "rng_draw (Mulberry32 3683381727) = (1389340338 / 4294967296, Mulberry32 1219980244)"
  by (simp add: mulberry32_next_def Let_def)

lemma damp_flat: "inv (state e) = 0 \<Longrightarrow> damp e = 1"
  by (simp add: damp_def clamp_def Let_def)

lemma scaleOf_dowMembers: "scaleOf dowMembers = 1.8"
  by (simp add: scaleOf_def dowMembers_def)

lemma candidate_seeded:
  assumes "rng e = Mulberry32 20250101" and "inv (state e) = 0"
  shows "candidate 1000 2000 n dowMembers now e
     = (Some \<lparr> side = BUY, price = 1000, qty = n, scenario = dowMembers,
               fair = fst (sampleFair 30 (Mulberry32 20250101)), ts = now \<rparr>,
        Mulberry32 1219980244)"
proof -
  define F where "F = fst (sampleFair 30 (Mulberry32 20250101))"
  have "snd (sampleFair 30 (Mulberry32 20250101)) = Mulberry32 3683381727"
    by (simp only: sampleFair_rng seeded_draw1 seeded_draw2 snd_conv)
  then have sf: "sampleFair 30 (Mulberry32 20250101) = (F, Mulberry32 3683381727)"
    by (simp add: F_def prod_eq_iff)
  have "fst (rng_draw (Mulberry32 20250101)) \<le> 1"
    by (simp add: seeded_draw1 del: rng_draw.simps)
  then have F: "0 \<le> F" "F \<le> 810"
    using sampleFair_bounds [of 30 "Mulberry32 20250101"] by (simp_all add: F_def)
  have "pBuy F 2000 dowMembers \<le> 1 / 2"
    using F by (intro pBuy_le_half) simp
  then have nb: "\<not> pBuy F 2000 dowMembers * 1 > 0.60" by simp
  have "2 / 3 \<le> pSell F 1000 dowMembers"
    using F by (intro pSell_ge_two_thirds) (simp add: scaleOf_dowMembers)
  then have ps: "pSell F 1000 dowMembers * 1 > 0.60"
    "r < pSell F 1000 dowMembers * 1" if "r < 2 / 3" for r using that by simp_all
  have df: "directionalFill 1000 2000 n dowMembers F now 1 r
     = Some \<lparr> side = BUY, price = 1000, qty = n, scenario = dowMembers, fair = F, ts = now \<rparr>"
    if "r < 2 / 3" for r
    unfolding directionalFill_def using nb ps [OF that] by simp
  have tv: "trueValue dowMembers = 30" by (simp add: dowMembers_def)
  show ?thesis
    unfolding candidate_def F_def [symmetric]
    by (simp add: assms(1) damp_flat [OF assms(2)] tv sf seeded_draw3 df del: rng_draw.simps)
qed

subsection \<open>Submitting a quote\<close>

lemma quoteSanity_highQuote: "quoteSanity highQuote = Inr (1000, 2000)"
  by (simp add: highQuote_def)

lemma fresh_fields:
  "inv (state (construct st env)) = 0"
  "cash (state (construct st env)) = 0"
  "fills (state (construct st env)) = []"
  "realized (state (construct st env)) = 0"
  "lastMark (state (construct st env)) = None"
  "settings (construct st env) = st"
  by (simp_all add: construct_def)

lemma limit_initialSettings: "inventoryLimit initialSettings = 10"
  by (simp add: initialSettings_def)

lemma rng_seeded:
  "seed st = Some 20250101 \<Longrightarrow> rng (construct st env) = Mulberry32 20250101"
  by (simp add: construct_def seed_state)

lemma seed_initialSettings: "seed initialSettings = Some 20250101"
  by (simp add: initialSettings_def)

lemma candidate_initial:
  "candidate 1000 2000 n dowMembers now (construct initialSettings env)
     = (Some (firstFill n now), Mulberry32 1219980244)"
  unfolding firstFill_def
  by (rule candidate_seeded) (simp_all add: rng_seeded seed_initialSettings fresh_fields)

lemma submitQuote_seeded_fill:
  "fst (submitQuote highQuote dowMembers None now (construct initialSettings env))
     = Inr (Some (firstFill 1 now))"
  by (simp add: submitQuote_def quoteSanity_highQuote candidate_initial firstFill_def
      fresh_fields limit_initialSettings Let_def del: quoteSanity.simps)

lemma submitQuote_seeded_reject:
  "fst (submitQuote highQuote dowMembers (Some 100) now (construct initialSettings env))
     = Inr None"
  by (simp add: submitQuote_def quoteSanity_highQuote candidate_initial firstFill_def
      fresh_fields limit_initialSettings Let_def del: quoteSanity.simps)

lemma quoteSanity_Inr_iff:
  "(\<exists>p. quoteSanity q = Inr p)
     \<longleftrightarrow> (\<exists>b a. bid q = Num b \<and> ask q = Num a \<and> 0 < b \<and> 0 < a \<and> b < a)"
  by (cases "bid q"; cases "ask q") auto

text \<open>
  Claim C2. \<open>submitQuote\<close> throws exactly when the quote fails the sanity contract, that
  is, unless bid and ask are both finite, both positive and \<open>bid < ask\<close>. The three errors
  of \<open>quoteSanity\<close> are the spec's \<open>InvalidQuote\<close>. When it throws, the engine after the call
  is the engine before it: no field of the state has changed and the generator has not
  been drawn from.
\<close>

theorem submitQuote_throws_spec:
  "((\<exists>err. fst (submitQuote q scn n now e) = Inl err)
      \<longleftrightarrow> \<not> (\<exists>b a. bid q = Num b \<and> ask q = Num a \<and> 0 < b \<and> 0 < a \<and> b < a))
   \<and> (\<forall>err. fst (submitQuote q scn n now e) = Inl err \<longrightarrow> snd (submitQuote q scn n now e) = e)"
proof (cases "quoteSanity q")
  case (Inl err)
  then have "\<not> (\<exists>p. quoteSanity q = Inr p)" by simp
  then have nv: "\<not> (\<exists>b a. bid q = Num b \<and> ask q = Num a \<and> 0 < b \<and> 0 < a \<and> b < a)"
    using quoteSanity_Inr_iff [of q] by blast
  have r: "submitQuote q scn n now e = (Inl err, e)"
    using Inl by (simp add: submitQuote_def del: quoteSanity.simps)
  have "\<exists>err. fst (submitQuote q scn n now e) = Inl err" by (simp add: r)
  moreover have "snd (submitQuote q scn n now e) = e" by (simp add: r)
  ultimately show ?thesis using nv by blast
next
  case (Inr p)
  then have "\<exists>p. quoteSanity q = Inr p" by blast
  then have v: "\<exists>b a. bid q = Num b \<and> ask q = Num a \<and> 0 < b \<and> 0 < a \<and> b < a"
    using quoteSanity_Inr_iff [of q] by blast
  have "\<exists>r. fst (submitQuote q scn n now e) = Inr r"
    using Inr by (cases p)
      (simp add: submitQuote_def Let_def del: quoteSanity.simps split: prod.splits option.splits)
  then have "\<not> (\<exists>err. fst (submitQuote q scn n now e) = Inl err)"
       "\<forall>err. fst (submitQuote q scn n now e) \<noteq> Inl err" by auto
  with v show ?thesis by blast
qed

theorem submitQuote_throws_spec_witness:
  "\<not> (\<exists>b a. bid \<lparr> bid = Num 100, ask = Num 90 \<rparr> = Num b
          \<and> ask \<lparr> bid = Num 100, ask = Num 90 \<rparr> = Num a \<and> 0 < b \<and> 0 < a \<and> b < a)
   \<and> fst (submitQuote \<lparr> bid = Num 100, ask = Num 90 \<rparr> dowMembers None 0
            (construct initialSettings (\<lambda>i. 0))) = Inl BidNotBelowAsk
   \<and> snd (submitQuote \<lparr> bid = Num 100, ask = Num 90 \<rparr> dowMembers None 0
            (construct initialSettings (\<lambda>i. 0))) = construct initialSettings (\<lambda>i. 0)"
  using submitQuote_throws_spec [of "\<lparr> bid = Num 100, ask = Num 90 \<rparr>" dowMembers None 0
      "construct initialSettings (\<lambda>i. 0)"]
  by (simp add: submitQuote_def)

text \<open>
  Claim C3. When \<open>submitQuote\<close> returns a fill, either the fill is a BUY, cash went down by
  \<open>price * qty\<close> and the inventory up by \<open>qty\<close>, or it is a SELL, cash went up by
  \<open>price * qty\<close> and the inventory down by \<open>qty\<close>, and never both. The fill is appended once
  to the history, whose length grows by one, \<open>lastMark\<close> is the scenario's true value, and
  \<open>realized\<close> and the settings are as before.
\<close>

theorem submitQuote_fill_spec:
  assumes "fst (submitQuote q scn n now e) = Inr (Some f)"
  shows "((side f = BUY \<and> cash (state (snd (submitQuote q scn n now e))) = cash (state e) - price f * qty f
             \<and> inv (state (snd (submitQuote q scn n now e))) = inv (state e) + qty f)
          \<or> (side f = SELL \<and> cash (state (snd (submitQuote q scn n now e))) = cash (state e) + price f * qty f
             \<and> inv (state (snd (submitQuote q scn n now e))) = inv (state e) - qty f))
       \<and> \<not> (side f = BUY \<and> side f = SELL)
       \<and> fills (state (snd (submitQuote q scn n now e))) = fills (state e) @ [f]
       \<and> length (fills (state (snd (submitQuote q scn n now e)))) = length (fills (state e)) + 1
       \<and> lastMark (state (snd (submitQuote q scn n now e))) = Some (trueValue scn)
       \<and> realized (state (snd (submitQuote q scn n now e))) = realized (state e)
       \<and> settings (snd (submitQuote q scn n now e)) = settings e"
proof -
  obtain b a where qs: "quoteSanity q = Inr (b, a)"
    using assms by (cases "quoteSanity q") (auto simp: submitQuote_def simp del: quoteSanity.simps)
  obtain c g where cd: "candidate b a (case n of None \<Rightarrow> 1 | Some k \<Rightarrow> k) scn now e = (c, g)"
    by (cases "candidate b a (case n of None \<Rightarrow> 1 | Some k \<Rightarrow> k) scn now e")
  have c: "c = Some f"
    using assms qs cd
    by (auto simp: submitQuote_def Let_def simp del: quoteSanity.simps split: option.splits if_splits)
  have e': "snd (submitQuote q scn n now e) = e\<lparr> rng := g, state := applyFill f scn (state e) \<rparr>"
    using assms qs cd c
    by (auto simp: submitQuote_def Let_def simp del: quoteSanity.simps split: if_splits)
  show ?thesis
    unfolding e' by (cases "side f") (simp_all add: applyFill_def Let_def)
qed

theorem submitQuote_fill_spec_witness:
  "fst (submitQuote highQuote dowMembers None 0 (construct initialSettings (\<lambda>i. 0)))
     = Inr (Some (firstFill 1 0))
   \<and> side (firstFill 1 0) = BUY
   \<and> cash (state (snd (submitQuote highQuote dowMembers None 0 (construct initialSettings (\<lambda>i. 0))))) = - 1000
   \<and> inv (state (snd (submitQuote highQuote dowMembers None 0 (construct initialSettings (\<lambda>i. 0))))) = 1
   \<and> fills (state (snd (submitQuote highQuote dowMembers None 0 (construct initialSettings (\<lambda>i. 0)))))
       = [firstFill 1 0]
   \<and> lastMark (state (snd (submitQuote highQuote dowMembers None 0 (construct initialSettings (\<lambda>i. 0)))))
       = Some 30"
  using submitQuote_fill_spec [OF submitQuote_seeded_fill [of 0 "\<lambda>i. 0"]]
    submitQuote_seeded_fill [of 0 "\<lambda>i. 0"]
  by (simp add: fresh_fields firstFill_def dowMembers_def)

text \<open>
  Claim C4. When \<open>submitQuote\<close> returns no fill, whether no trade was generated or the
  candidate was rejected by the inventory limit, cash, inventory, fills and \<open>lastMark\<close> are
  what they were before the call, and so is the whole state.
\<close>

theorem submitQuote_nofill_spec:
  assumes "fst (submitQuote q scn n now e) = Inr None"
  shows "cash (state (snd (submitQuote q scn n now e))) = cash (state e)
       \<and> inv (state (snd (submitQuote q scn n now e))) = inv (state e)
       \<and> fills (state (snd (submitQuote q scn n now e))) = fills (state e)
       \<and> lastMark (state (snd (submitQuote q scn n now e))) = lastMark (state e)
       \<and> state (snd (submitQuote q scn n now e)) = state e
       \<and> settings (snd (submitQuote q scn n now e)) = settings e"
proof -
  obtain b a where qs: "quoteSanity q = Inr (b, a)"
    using assms by (cases "quoteSanity q") (auto simp: submitQuote_def simp del: quoteSanity.simps)
  obtain c g where cd: "candidate b a (case n of None \<Rightarrow> 1 | Some k \<Rightarrow> k) scn now e = (c, g)"
    by (cases "candidate b a (case n of None \<Rightarrow> 1 | Some k \<Rightarrow> k) scn now e")
  have "snd (submitQuote q scn n now e) = e\<lparr> rng := g \<rparr>"
    using assms qs cd
    by (auto simp: submitQuote_def Let_def simp del: quoteSanity.simps split: option.splits if_splits)
  then show ?thesis by simp
qed

theorem submitQuote_nofill_spec_witness:
  "fst (submitQuote highQuote dowMembers (Some 100) 0 (construct initialSettings (\<lambda>i. 0))) = Inr None
   \<and> state (snd (submitQuote highQuote dowMembers (Some 100) 0 (construct initialSettings (\<lambda>i. 0))))
       = \<lparr> cash = 0, inv = 0, realized = 0, lastMark = None, fills = [] \<rparr>"
  using submitQuote_nofill_spec [OF submitQuote_seeded_reject [of 0 "\<lambda>i. 0"]]
    submitQuote_seeded_reject [of 0 "\<lambda>i. 0"]
  by (simp add: construct_def)

subsection \<open>The directional decision\<close>

lemma rng_draw_advances:
  "snd (rng_draw g) \<noteq> g \<and> snd (rng_draw (snd (rng_draw g))) \<noteq> g"
proof (cases g)
  case (Mulberry32 a)
  have "a + 0x6d2b79f5 \<noteq> a" "a + 0x6d2b79f5 + 0x6d2b79f5 \<noteq> a"
    by (simp_all add: add.assoc)
  then show ?thesis
    using Mulberry32 by (simp add: mulberry32_next_def Let_def)
next
  case (MathRandom env i)
  then show ?thesis by simp
qed

lemma randomFlow_advances: "snd (randomFlow b a n scn fr now d g) \<noteq> g"
  using rng_draw_advances [of g]
  by (simp add: randomFlow_def Let_def split: prod.splits del: rng_draw.simps) (auto simp del: rng_draw.simps)

lemma candidate_unfold:
  assumes "sampleFair (trueValue scn) (rng e) = (fr, g1)" and "rng_draw g1 = (r, g2)"
  shows "candidate b a n scn now e
     = (case directionalFill b a n scn fr now (damp e) r of
          Some f \<Rightarrow> (Some f, g2)
        | None \<Rightarrow> randomFlow b a n scn fr now (damp e) g2)"
  using assms by (simp add: candidate_def Let_def del: rng_draw.simps)

text \<open>
  Claim C9. Take a call of \<open>submitQuote\<close> with a valid quote \<open>b < a\<close>, let \<open>fr\<close> be the
  fair value it samples with the first two draws and \<open>r\<close> its third draw, and let \<open>pb\<close>
  and \<open>ps\<close> be the logistic probabilities of the buy and the sell side times the damping
  factor of the engine's inventory, all written out as the code computes them. If \<open>pb\<close> is
  above 0.60 and \<open>r\<close> below \<open>pb\<close>, the candidate fill is the maker's sale at the ask; this
  side is tested first. If \<open>ps\<close> is above 0.60 and \<open>r\<close> below \<open>ps\<close>, it is the maker's
  purchase at the bid. In both cases no further draw is made and the call returns that
  fill unless the inventory limit rejects it. Otherwise there is no directional fill and
  the candidate is what the random flow gives with further draws. The two gates are never
  open together, so there is at most one directional fill, and the call stops after the
  third draw exactly when one of the two conditions holds.
\<close>

theorem submitQuote_directional_spec:
  assumes q: "bid q = Num b" "ask q = Num a" "0 < b" "0 < a" "b < a"
    and n: "n = (case qtyArg of None \<Rightarrow> 1 | Some k \<Rightarrow> k)"
    and fr: "sampleFair (trueValue scn) (rng e) = (fr, g1)"
    and r: "rng_draw g1 = (r, g2)"
    and d: "d = clamp (1 - 0.35 * (\<bar>inv (state e)\<bar> / max 1 (inventoryLimit (settings e)))) 0.35 1"
    and pb: "pb = 1 / (1 + exp (- (fr - a) / max 1 (0.06 * trueValue scn))) * d"
    and ps: "ps = 1 / (1 + exp (- (b - fr) / max 1 (0.06 * trueValue scn))) * d"
  shows "(pb > 0.60 \<and> r < pb \<longrightarrow>
            candidate b a n scn now e
              = (Some \<lparr> side = SELL, price = a, qty = n, scenario = scn, fair = fr, ts = now \<rparr>, g2)
          \<and> fst (submitQuote q scn qtyArg now e)
              = (if \<bar>inv (state e) - n\<bar> > inventoryLimit (settings e) then Inr None
                 else Inr (Some \<lparr> side = SELL, price = a, qty = n, scenario = scn, fair = fr, ts = now \<rparr>)))
       \<and> (ps > 0.60 \<and> r < ps \<longrightarrow>
            candidate b a n scn now e
              = (Some \<lparr> side = BUY, price = b, qty = n, scenario = scn, fair = fr, ts = now \<rparr>, g2)
          \<and> fst (submitQuote q scn qtyArg now e)
              = (if \<bar>inv (state e) + n\<bar> > inventoryLimit (settings e) then Inr None
                 else Inr (Some \<lparr> side = BUY, price = b, qty = n, scenario = scn, fair = fr, ts = now \<rparr>)))
       \<and> (\<not> (pb > 0.60 \<and> r < pb) \<and> \<not> (ps > 0.60 \<and> r < ps) \<longrightarrow>
            candidate b a n scn now e = randomFlow b a n scn fr now d g2)
       \<and> \<not> (pb > 0.60 \<and> ps > 0.60)
       \<and> (rng (snd (submitQuote q scn qtyArg now e)) = g2
            \<longleftrightarrow> (pb > 0.60 \<and> r < pb) \<or> (ps > 0.60 \<and> r < ps))"
proof -
  have dd: "damp e = d" by (simp only: d damp_def Let_def)
  have pbd: "pBuy fr a scn * damp e = pb" by (simp add: pb pBuy_def scaleOf_def dd)
  have psd: "pSell fr b scn * damp e = ps" by (simp add: ps pSell_def scaleOf_def dd)
  have excl: "\<not> (pb > 0.60 \<and> ps > 0.60)"
  proof
    assume "pb > 0.60 \<and> ps > 0.60"
    then have g: "pBuy fr a scn * damp e > 0.60" "pSell fr b scn * damp e > 0.60"
      by (simp_all only: pbd psd)
    have "a < fr" using g(1) by (rule pBuy_gate_pos)
    moreover have "fr < b" using g(2) by (rule pSell_gate_pos)
    ultimately show False using q(5) by simp
  qed
  have qs: "quoteSanity q = Inr (b, a)" using q by simp
  note cu = candidate_unfold [OF fr r, of b a n now]
  have df: "directionalFill b a n scn fr now (damp e) r
     = (if pb > 0.60 \<and> r < pb
        then Some \<lparr> side = SELL, price = a, qty = n, scenario = scn, fair = fr, ts = now \<rparr>
        else if ps > 0.60 \<and> r < ps
        then Some \<lparr> side = BUY, price = b, qty = n, scenario = scn, fair = fr, ts = now \<rparr>
        else None)"
    unfolding directionalFill_def pbd psd by simp
  have sq: "submitQuote q scn qtyArg now e
     = (case candidate b a n scn now e of
          (None, g) \<Rightarrow> (Inr None, e\<lparr> rng := g \<rparr>)
        | (Some f, g) \<Rightarrow>
            if \<bar>inv (state e) + (if side f = BUY then qty f else - qty f)\<bar> > inventoryLimit (settings e)
            then (Inr None, e\<lparr> rng := g \<rparr>)
            else (Inr (Some f), e\<lparr> rng := g, state := applyFill f scn (state e) \<rparr>))"
    by (simp add: submitQuote_def qs n [symmetric] Let_def del: quoteSanity.simps
        split: prod.splits option.splits)
  have rg: "rng (snd (submitQuote q scn qtyArg now e)) = snd (candidate b a n scn now e)"
    by (simp add: sq split: prod.splits option.splits)
  have c1: "candidate b a n scn now e
              = (Some \<lparr> side = SELL, price = a, qty = n, scenario = scn, fair = fr, ts = now \<rparr>, g2)"
    if "pb > 0.60 \<and> r < pb"
    using that by (simp add: cu df)
  have c2: "candidate b a n scn now e
              = (Some \<lparr> side = BUY, price = b, qty = n, scenario = scn, fair = fr, ts = now \<rparr>, g2)"
    if "ps > 0.60 \<and> r < ps"
    using that excl by (auto simp add: cu df)
  have c3: "candidate b a n scn now e = randomFlow b a n scn fr now d g2"
    if "\<not> (pb > 0.60 \<and> r < pb) \<and> \<not> (ps > 0.60 \<and> r < ps)"
  proof -
    have "directionalFill b a n scn fr now (damp e) r = None"
      using that by (simp add: df)
    then have "candidate b a n scn now e = randomFlow b a n scn fr now (damp e) g2"
      by (simp add: cu)
    then show ?thesis by (simp only: dd)
  qed
  have s1: "fst (submitQuote q scn qtyArg now e)
              = (if \<bar>inv (state e) - n\<bar> > inventoryLimit (settings e) then Inr None
                 else Inr (Some \<lparr> side = SELL, price = a, qty = n, scenario = scn, fair = fr, ts = now \<rparr>))"
    if "pb > 0.60 \<and> r < pb"
    by (simp add: sq c1 [OF that])
  have s2: "fst (submitQuote q scn qtyArg now e)
              = (if \<bar>inv (state e) + n\<bar> > inventoryLimit (settings e) then Inr None
                 else Inr (Some \<lparr> side = BUY, price = b, qty = n, scenario = scn, fair = fr, ts = now \<rparr>))"
    if "ps > 0.60 \<and> r < ps"
    by (simp add: sq c2 [OF that])
  have iff: "rng (snd (submitQuote q scn qtyArg now e)) = g2
            \<longleftrightarrow> (pb > 0.60 \<and> r < pb) \<or> (ps > 0.60 \<and> r < ps)"
  proof (cases "(pb > 0.60 \<and> r < pb) \<or> (ps > 0.60 \<and> r < ps)")
    case True
    then have "snd (candidate b a n scn now e) = g2" using c1 c2 by auto
    then show ?thesis using True by (simp add: rg)
  next
    case False
    then have "candidate b a n scn now e = randomFlow b a n scn fr now d g2" using c3 by blast
    then have "snd (candidate b a n scn now e) \<noteq> g2" by (simp add: randomFlow_advances)
    then show ?thesis using False by (simp add: rg)
  qed
  show ?thesis using c1 c2 c3 s1 s2 excl iff by blast
qed


lemma seeded_sampleFair:
  "sampleFair 30 (Mulberry32 20250101)
     = (fst (sampleFair 30 (Mulberry32 20250101)), Mulberry32 3683381727)"
proof -
  have "snd (sampleFair 30 (Mulberry32 20250101)) = Mulberry32 3683381727"
    by (simp only: sampleFair_rng seeded_draw1 seeded_draw2 snd_conv)
  then show ?thesis by (simp add: prod_eq_iff)
qed

lemma seeded_fair_bounds:
  "0 \<le> fst (sampleFair 30 (Mulberry32 20250101)) \<and> fst (sampleFair 30 (Mulberry32 20250101)) \<le> 810"
proof -
  have "fst (rng_draw (Mulberry32 20250101)) \<le> 1"
    by (simp add: seeded_draw1 del: rng_draw.simps)
  then show ?thesis
    using sampleFair_bounds [of 30 "Mulberry32 20250101"] by simp
qed

lemma seeded_sell_gate:
  "pSell (fst (sampleFair 30 (Mulberry32 20250101))) 1000 dowMembers
     * damp (construct initialSettings env) > 0.60
   \<and> 1389340338 / 4294967296
       < pSell (fst (sampleFair 30 (Mulberry32 20250101))) 1000 dowMembers
           * damp (construct initialSettings env)"
proof -
  have "2 / 3 \<le> pSell (fst (sampleFair 30 (Mulberry32 20250101))) 1000 dowMembers"
    using seeded_fair_bounds by (intro pSell_ge_two_thirds) (simp add: scaleOf_dowMembers)
  moreover have "damp (construct initialSettings env) = 1"
    by (rule damp_flat) (simp add: fresh_fields)
  ultimately show ?thesis by simp
qed

theorem submitQuote_directional_spec_witness:
  "sampleFair (trueValue dowMembers) (rng (construct initialSettings (\<lambda>i. 0)))
     = (fst (sampleFair 30 (Mulberry32 20250101)), Mulberry32 3683381727)
   \<and> rng_draw (Mulberry32 3683381727) = (1389340338 / 4294967296, Mulberry32 1219980244)
   \<and> pSell (fst (sampleFair 30 (Mulberry32 20250101))) 1000 dowMembers
         * damp (construct initialSettings (\<lambda>i. 0)) > 0.60
   \<and> 1389340338 / 4294967296
         < pSell (fst (sampleFair 30 (Mulberry32 20250101))) 1000 dowMembers
             * damp (construct initialSettings (\<lambda>i. 0))
   \<and> candidate 1000 2000 1 dowMembers 0 (construct initialSettings (\<lambda>i. 0))
       = (Some \<lparr> side = BUY, price = 1000, qty = 1, scenario = dowMembers,
                 fair = fst (sampleFair 30 (Mulberry32 20250101)), ts = 0 \<rparr>,
          Mulberry32 1219980244)
   \<and> fst (submitQuote highQuote dowMembers None 0 (construct initialSettings (\<lambda>i. 0)))
       = Inr (Some \<lparr> side = BUY, price = 1000, qty = 1, scenario = dowMembers,
                      fair = fst (sampleFair 30 (Mulberry32 20250101)), ts = 0 \<rparr>)
   \<and> rng (snd (submitQuote highQuote dowMembers None 0 (construct initialSettings (\<lambda>i. 0))))
       = Mulberry32 1219980244"
proof -
  let ?E = "construct initialSettings (\<lambda>i. 0)"
  let ?F = "fst (sampleFair 30 (Mulberry32 20250101))"
  have q: "bid highQuote = Num 1000" "ask highQuote = Num 2000"
    "(0::real) < 1000" "(0::real) < 2000" "(1000::real) < 2000"
    by (simp_all add: highQuote_def)
  have n: "(1::real) = (case None of None \<Rightarrow> 1 | Some k \<Rightarrow> k)" by simp
  have fr: "sampleFair (trueValue dowMembers) (rng ?E) = (?F, Mulberry32 3683381727)"
    using seeded_sampleFair by (simp add: dowMembers_def rng_seeded seed_initialSettings)
  have d: "damp ?E = clamp (1 - 0.35 * (\<bar>inv (state ?E)\<bar> / max 1 (inventoryLimit (settings ?E)))) 0.35 1"
    by (simp only: damp_def Let_def)
  have pb: "pBuy ?F 2000 dowMembers * damp ?E
      = 1 / (1 + exp (- (?F - 2000) / max 1 (0.06 * trueValue dowMembers))) * damp ?E"
    by (simp only: pBuy_def scaleOf_def)
  have ps: "pSell ?F 1000 dowMembers * damp ?E
      = 1 / (1 + exp (- (1000 - ?F) / max 1 (0.06 * trueValue dowMembers))) * damp ?E"
    by (simp only: pSell_def scaleOf_def)
  note t = submitQuote_directional_spec [OF q n fr seeded_draw3 d pb ps, where now = 0]
  have g: "pSell ?F 1000 dowMembers * damp ?E > 0.60
        \<and> 1389340338 / 4294967296 < pSell ?F 1000 dowMembers * damp ?E"
    by (rule seeded_sell_gate)
  have c: "candidate 1000 2000 1 dowMembers 0 ?E
       = (Some \<lparr> side = BUY, price = 1000, qty = 1, scenario = dowMembers, fair = ?F, ts = 0 \<rparr>,
          Mulberry32 1219980244)"
    and s: "fst (submitQuote highQuote dowMembers None 0 ?E)
       = (if \<bar>inv (state ?E) + 1\<bar> > inventoryLimit (settings ?E) then Inr None
          else Inr (Some \<lparr> side = BUY, price = 1000, qty = 1, scenario = dowMembers, fair = ?F, ts = 0 \<rparr>))"
    using t g by blast+
  have r: "rng (snd (submitQuote highQuote dowMembers None 0 ?E)) = Mulberry32 1219980244"
    using t g by blast
  have s': "fst (submitQuote highQuote dowMembers None 0 ?E)
       = Inr (Some \<lparr> side = BUY, price = 1000, qty = 1, scenario = dowMembers, fair = ?F, ts = 0 \<rparr>)"
    using s by (simp add: fresh_fields limit_initialSettings)
  show ?thesis using fr seeded_draw3 g c s' r by blast
qed

subsection \<open>Sessions of calls and the inventory limit\<close>

lemma submitQuote_settings: "settings (snd (submitQuote q scn n now e)) = settings e"
  by (simp add: submitQuote_def Let_def del: quoteSanity.simps
      split: sum.splits prod.splits option.splits)

lemma submitQuote_realized: "realized (state (snd (submitQuote q scn n now e))) = realized (state e)"
  by (simp add: submitQuote_def applyFill_def Let_def del: quoteSanity.simps
      split: sum.splits prod.splits option.splits)

lemma submitQuote_keeps_limit:
  assumes "\<bar>inv (state e)\<bar> \<le> inventoryLimit (settings e)"
  shows "\<bar>inv (state (snd (submitQuote q scn n now e)))\<bar> \<le> inventoryLimit (settings e)"
  using assms
  by (auto simp: submitQuote_def applyFill_def Let_def simp del: quoteSanity.simps
      split: sum.splits prod.splits option.splits)

lemma submitQuote_valid_returns:
  assumes "\<exists>b a. bid q = Num b \<and> ask q = Num a \<and> 0 < b \<and> 0 < a \<and> b < a"
  shows "\<exists>x. fst (submitQuote q scn n now e) = Inr x"
proof -
  obtain p where "quoteSanity q = Inr p" using assms quoteSanity_Inr_iff [of q] by blast
  then show ?thesis
    by (cases p)
      (simp add: submitQuote_def Let_def del: quoteSanity.simps split: prod.splits option.splits)
qed

lemma submitAll_Cons_fst:
  "fst (submitAll (c # cs) e)
     = fst (submitQuote (c_quote c) (c_scenario c) (c_qty c) (c_now c) e)
       # fst (submitAll cs (snd (submitQuote (c_quote c) (c_scenario c) (c_qty c) (c_now c) e)))"
  by (simp add: case_prod_beta)

lemma submitAll_Cons_snd:
  "snd (submitAll (c # cs) e)
     = snd (submitAll cs (snd (submitQuote (c_quote c) (c_scenario c) (c_qty c) (c_now c) e)))"
  by (simp add: case_prod_beta)

lemma submitAll_settings: "settings (snd (submitAll cs e)) = settings e"
  by (induction cs arbitrary: e) (simp_all add: submitAll_Cons_snd submitQuote_settings del: submitAll.simps(2))

lemma submitAll_keeps_limit:
  "\<bar>inv (state e)\<bar> \<le> inventoryLimit (settings e)
   \<Longrightarrow> \<bar>inv (state (snd (submitAll cs e)))\<bar> \<le> inventoryLimit (settings e)"
proof (induction cs arbitrary: e)
  case Nil
  then show ?case by simp
next
  case (Cons c cs)
  define e1 where "e1 = snd (submitQuote (c_quote c) (c_scenario c) (c_qty c) (c_now c) e)"
  have st: "settings e1 = settings e"
    by (simp add: e1_def submitQuote_settings)
  have "\<bar>inv (state e1)\<bar> \<le> inventoryLimit (settings e)"
    unfolding e1_def using Cons.prems by (rule submitQuote_keeps_limit)
  then have "\<bar>inv (state (snd (submitAll cs e1)))\<bar> \<le> inventoryLimit (settings e1)"
    using Cons.IH [of e1] st by simp
  then show ?case by (simp only: submitAll_Cons_snd e1_def [symmetric] st)
qed

lemma submitAll_valid_returns:
  "\<forall>c\<in>set cs. \<exists>b a. bid (c_quote c) = Num b \<and> ask (c_quote c) = Num a \<and> 0 < b \<and> 0 < a \<and> b < a
   \<Longrightarrow> \<forall>r\<in>set (fst (submitAll cs e)). \<exists>x. r = Inr x"
proof (induction cs arbitrary: e)
  case Nil
  then show ?case by simp
next
  case (Cons c cs)
  define e1 where "e1 = snd (submitQuote (c_quote c) (c_scenario c) (c_qty c) (c_now c) e)"
  have "\<exists>x. fst (submitQuote (c_quote c) (c_scenario c) (c_qty c) (c_now c) e) = Inr x"
    using Cons.prems by (intro submitQuote_valid_returns) simp
  moreover have "\<forall>r\<in>set (fst (submitAll cs e1)). \<exists>x. r = Inr x"
    using Cons.IH [of e1] Cons.prems by simp
  ultimately show ?case
    by (simp add: submitAll_Cons_fst e1_def [symmetric] del: submitAll.simps(2))
qed

text \<open>
  Claim C1. Take an engine constructed with a positive integer inventory limit and any
  sequence of \<open>submitQuote\<close> calls whose quotes are valid (finite, positive, \<open>bid < ask\<close>)
  and whose quantities are positive. No call throws, and after every call, that is after
  every prefix of the sequence, the inventory is within the limit in absolute value.
\<close>

theorem submitAll_inventory_limit:
  assumes "0 < inventoryLimit st" and "inventoryLimit st \<in> \<nat>"
    and "\<forall>c\<in>set cs. (\<exists>b a. bid (c_quote c) = Num b \<and> ask (c_quote c) = Num a \<and> 0 < b \<and> 0 < a \<and> b < a)
            \<and> (\<forall>k. c_qty c = Some k \<longrightarrow> 0 < k)"
  shows "(\<forall>r\<in>set (fst (submitAll cs (construct st env))). \<exists>x. r = Inr x)
       \<and> (\<forall>k\<le>length cs.
            \<bar>inv (state (snd (submitAll (take k cs) (construct st env))))\<bar> \<le> inventoryLimit st)"
proof -
  have v: "\<forall>c\<in>set cs. \<exists>b a. bid (c_quote c) = Num b \<and> ask (c_quote c) = Num a \<and> 0 < b \<and> 0 < a \<and> b < a"
    using assms(3) by blast
  have f: "\<bar>inv (state (construct st env))\<bar> \<le> inventoryLimit (settings (construct st env))"
    using assms(1) by (simp add: fresh_fields)
  have "\<bar>inv (state (snd (submitAll (take k cs) (construct st env))))\<bar> \<le> inventoryLimit st" for k
    using submitAll_keeps_limit [OF f, of "take k cs"] by (simp add: fresh_fields)
  then show ?thesis using submitAll_valid_returns [OF v] by blast
qed

theorem submitAll_inventory_limit_witness:
  "0 < inventoryLimit initialSettings \<and> inventoryLimit initialSettings \<in> \<nat>
   \<and> (\<exists>b a. bid highQuote = Num b \<and> ask highQuote = Num a \<and> 0 < b \<and> 0 < a \<and> b < a)
   \<and> list_all (\<lambda>r. \<exists>x. r = Inr x) (fst (submitAll
          [\<lparr> c_quote = highQuote, c_scenario = dowMembers, c_qty = Some 4, c_now = 0 \<rparr>,
           \<lparr> c_quote = highQuote, c_scenario = dowMembers, c_qty = None, c_now = 5 \<rparr>]
          (construct initialSettings (\<lambda>i. 0))))
   \<and> \<bar>inv (state (snd (submitAll
          [\<lparr> c_quote = highQuote, c_scenario = dowMembers, c_qty = Some 4, c_now = 0 \<rparr>,
           \<lparr> c_quote = highQuote, c_scenario = dowMembers, c_qty = None, c_now = 5 \<rparr>]
          (construct initialSettings (\<lambda>i. 0)))))\<bar> \<le> 10"
proof -
  let ?cs = "[\<lparr> c_quote = highQuote, c_scenario = dowMembers, c_qty = Some 4, c_now = 0 \<rparr>,
           \<lparr> c_quote = highQuote, c_scenario = dowMembers, c_qty = None, c_now = 5 \<rparr>]"
  have a: "0 < inventoryLimit initialSettings" "inventoryLimit initialSettings \<in> \<nat>"
    by (simp_all add: limit_initialSettings)
  have q: "\<exists>b a. bid highQuote = Num b \<and> ask highQuote = Num a \<and> 0 < b \<and> 0 < a \<and> b < a"
    by (simp add: highQuote_def)
  have c: "\<forall>c\<in>set ?cs.
         (\<exists>b a. bid (c_quote c) = Num b \<and> ask (c_quote c) = Num a \<and> 0 < b \<and> 0 < a \<and> b < a)
            \<and> (\<forall>k. c_qty c = Some k \<longrightarrow> 0 < k)"
    using q by simp
  note t = submitAll_inventory_limit [OF a c, of "\<lambda>i. 0"]
  have "\<forall>r\<in>set (fst (submitAll ?cs (construct initialSettings (\<lambda>i. 0)))). \<exists>x. r = Inr x"
    using t by (rule conjunct1)
  then have r: "list_all (\<lambda>r. \<exists>x. r = Inr x) (fst (submitAll ?cs (construct initialSettings (\<lambda>i. 0))))"
    by (simp only: list_all_iff)
  have "\<forall>k\<le>length ?cs.
      \<bar>inv (state (snd (submitAll (take k ?cs) (construct initialSettings (\<lambda>i. 0)))))\<bar>
        \<le> inventoryLimit initialSettings"
    using t by (rule conjunct2)
  then have "length ?cs \<le> length ?cs \<longrightarrow>
      \<bar>inv (state (snd (submitAll (take (length ?cs) ?cs) (construct initialSettings (\<lambda>i. 0)))))\<bar>
        \<le> inventoryLimit initialSettings"
    by (rule spec)
  then have i: "\<bar>inv (state (snd (submitAll ?cs (construct initialSettings (\<lambda>i. 0)))))\<bar> \<le> 10"
    by (simp add: limit_initialSettings del: submitAll.simps)
  show ?thesis using a q r i by blast
qed

subsection \<open>The realized field\<close>

lemma perform_realized: "realized (state (perform x e)) = realized (state e)"
  by (cases x) (simp_all add: submitQuote_realized pnl_def defaultQuote_def breakEven_def Let_def)

lemma performAll_realized: "realized (state (performAll xs e)) = realized (state e)"
  by (induction xs arbitrary: e) (simp_all add: perform_realized)

text \<open>
  Claim C10. \<open>realized\<close> is 0 in a constructed engine, no public method changes it, and so
  it is 0 after every sequence of \<open>submitQuote\<close>, \<open>pnl\<close>, \<open>defaultQuote\<close> and \<open>breakEven\<close>
  calls on a fresh engine.
\<close>

theorem realized_always_zero:
  "realized (state (construct st env)) = 0
   \<and> realized (state (perform x e)) = realized (state e)
   \<and> realized (state (performAll xs (construct st env))) = 0"
  by (simp add: perform_realized performAll_realized fresh_fields)

subsection \<open>Determinism under a seed\<close>

lemma eraseTs_eq_iff:
  "eraseTs f = eraseTs f' \<longleftrightarrow>
     side f = side f' \<and> price f = price f' \<and> qty f = qty f'
     \<and> scenario f = scenario f' \<and> fair f = fair f'"
  by (cases f; cases f') (simp add: eraseTs_def)

lemma damp_cong:
  "inv (state e) = inv (state e') \<Longrightarrow> settings e = settings e' \<Longrightarrow> damp e = damp e'"
  by (simp add: damp_def)

lemma candidate_clock:
  assumes "rng e = rng e'" and "damp e = damp e'"
  shows "snd (candidate b a k scn now e) = snd (candidate b a k scn now' e')
       \<and> map_option eraseTs (fst (candidate b a k scn now e))
           = map_option eraseTs (fst (candidate b a k scn now' e'))"
  using assms
  by (simp add: candidate_def directionalFill_def randomFlow_def eraseTs_def Let_def
      split: prod.splits)

lemma submitQuote_clock:
  assumes "sameButTs e e'"
  shows "sameButTs (snd (submitQuote q scn n now e)) (snd (submitQuote q scn n now' e'))
       \<and> eraseResultTs (fst (submitQuote q scn n now e))
           = eraseResultTs (fst (submitQuote q scn n now' e'))"
proof (cases "quoteSanity q")
  case (Inl err)
  then show ?thesis using assms
    by (simp add: submitQuote_def eraseResultTs_def del: quoteSanity.simps)
next
  case (Inr p)
  obtain b a where p: "p = (b, a)" by (cases p)
  define k where "k = (case n of None \<Rightarrow> 1 | Some j \<Rightarrow> (j::real))"
  obtain c g where cd: "candidate b a k scn now e = (c, g)"
    by (cases "candidate b a k scn now e")
  obtain c' g' where cd': "candidate b a k scn now' e' = (c', g')"
    by (cases "candidate b a k scn now' e'")
  have s: "settings e = settings e'" "rng e = rng e'" "inv (state e) = inv (state e')"
    using assms by (simp_all add: sameButTs_def)
  have "damp e = damp e'" using s by (intro damp_cong)
  then have cc: "g = g'" "map_option eraseTs c = map_option eraseTs c'"
    using candidate_clock [OF s(2), of b a k scn now now'] cd cd' by simp_all
  show ?thesis
  proof (cases c)
    case None
    then have "c' = None" using cc(2) by simp
    then show ?thesis using None Inr p cd cd' cc(1) assms
      by (simp add: submitQuote_def k_def [symmetric] sameButTs_def eraseResultTs_def Let_def
          del: quoteSanity.simps)
  next
    case (Some f)
    then obtain f' where f': "c' = Some f'" "eraseTs f = eraseTs f'"
      using cc(2) by (cases c') simp_all
    have fe: "side f = side f'" "price f = price f'" "qty f = qty f'"
      using f'(2) by (simp_all add: eraseTs_eq_iff)
    show ?thesis using Some f' fe Inr p cd cd' cc(1) assms
      by (simp add: submitQuote_def k_def [symmetric] sameButTs_def eraseResultTs_def
          applyFill_def Let_def del: quoteSanity.simps)
  qed
qed


lemma submitAll_clock:
  assumes "length cs = length cs'"
    and "map c_quote cs = map c_quote cs'"
    and "map c_scenario cs = map c_scenario cs'"
    and "map c_qty cs = map c_qty cs'"
    and "sameButTs e e'"
  shows "sameButTs (snd (submitAll cs e)) (snd (submitAll cs' e'))
       \<and> map eraseResultTs (fst (submitAll cs e)) = map eraseResultTs (fst (submitAll cs' e'))"
  using assms
proof (induction cs cs' arbitrary: e e' rule: list_induct2)
  case Nil
  then show ?case by simp
next
  case (Cons c cs c' cs')
  define e1 where "e1 = snd (submitQuote (c_quote c) (c_scenario c) (c_qty c) (c_now c) e)"
  define e1' where "e1' = snd (submitQuote (c_quote c') (c_scenario c') (c_qty c') (c_now c') e')"
  have eq: "c_quote c' = c_quote c" "c_scenario c' = c_scenario c" "c_qty c' = c_qty c"
    using Cons.prems by simp_all
  have step: "sameButTs e1 e1'"
    "eraseResultTs (fst (submitQuote (c_quote c) (c_scenario c) (c_qty c) (c_now c) e))
       = eraseResultTs (fst (submitQuote (c_quote c') (c_scenario c') (c_qty c') (c_now c') e'))"
    unfolding e1_def e1'_def eq
    using submitQuote_clock [OF Cons.prems(4), of "c_quote c" "c_scenario c" "c_qty c" "c_now c" "c_now c'"]
    by simp_all
  have "sameButTs (snd (submitAll cs e1)) (snd (submitAll cs' e1'))
       \<and> map eraseResultTs (fst (submitAll cs e1)) = map eraseResultTs (fst (submitAll cs' e1'))"
    using Cons.prems step(1) by (intro Cons.IH) simp_all
  then show ?case
    using step(2)
    by (simp add: submitAll_Cons_fst submitAll_Cons_snd e1_def [symmetric] e1'_def [symmetric]
        del: submitAll.simps(2))
qed

lemma construct_seeded_env: "seed st = Some sd \<Longrightarrow> construct st env = construct st env'"
  by (simp add: construct_def)

lemma call_eqI:
  "c_quote c = c_quote c' \<Longrightarrow> c_scenario c = c_scenario c' \<Longrightarrow> c_qty c = c_qty c'
   \<Longrightarrow> c_now c = c_now c' \<Longrightarrow> (c::call) = c'"
  by (cases c; cases c') simp

lemma calls_eqI:
  assumes "map c_quote cs = map c_quote cs'" and "map c_scenario cs = map c_scenario cs'"
    and "map c_qty cs = map c_qty cs'" and "map c_now cs = map c_now (cs'::call list)"
  shows "cs = cs'"
proof -
  have "length cs = length cs'" using assms(1) by (rule map_eq_imp_length_eq)
  then show ?thesis using assms
    by (induction cs cs' rule: list_induct2) (simp_all add: call_eqI)
qed

text \<open>
  Claim C5, as amended. Two engines constructed with the same settings, which carry a
  seed, and given the same quotes, scenarios and quantities in the same order return the
  same outcomes and end in the same state except for the \<open>ts\<close> of the fills: a fill's \<open>ts\<close>
  is the reading of \<^verbatim>\<open>Date.now()\<close> during its call, which the seed does not fix. When the
  clock readings agree as well, outcomes and final engines are identical.
\<close>

theorem seeded_determinism_up_to_clock:
  assumes "seed st = Some sd"
    and "map c_quote cs = map c_quote cs'"
    and "map c_scenario cs = map c_scenario cs'"
    and "map c_qty cs = map c_qty cs'"
  shows "map eraseResultTs (fst (submitAll cs (construct st env)))
           = map eraseResultTs (fst (submitAll cs' (construct st env')))
       \<and> sameButTs (snd (submitAll cs (construct st env))) (snd (submitAll cs' (construct st env')))
       \<and> (map c_now cs = map c_now cs'
            \<longrightarrow> submitAll cs (construct st env) = submitAll cs' (construct st env'))"
proof -
  have l: "length cs = length cs'" using assms(2) by (rule map_eq_imp_length_eq)
  have c: "construct st env = construct st env'" using assms(1) by (rule construct_seeded_env)
  have "sameButTs (construct st env) (construct st env')"
    by (simp add: c sameButTs_def)
  then have "sameButTs (snd (submitAll cs (construct st env))) (snd (submitAll cs' (construct st env')))
       \<and> map eraseResultTs (fst (submitAll cs (construct st env)))
           = map eraseResultTs (fst (submitAll cs' (construct st env')))"
    using l assms(2-4) by (intro submitAll_clock)
  moreover have "submitAll cs (construct st env) = submitAll cs' (construct st env')"
    if "map c_now cs = map c_now cs'"
    using calls_eqI [OF assms(2-4) that] c by simp
  ultimately show ?thesis by blast
qed

lemma firstFill_ts: "ts (firstFill n now) = now"
  by (simp add: firstFill_def)

text \<open>
  The claim as stated fails: with equal settings, seed, quote, scenario and quantity, the
  fill returned at clock reading 0 differs from the one returned at clock reading 1.
\<close>

theorem seeded_determinism_counterexample:
  "fst (submitAll [\<lparr> c_quote = highQuote, c_scenario = dowMembers, c_qty = None, c_now = 0 \<rparr>]
         (construct initialSettings (\<lambda>i. 0)))
   \<noteq> fst (submitAll [\<lparr> c_quote = highQuote, c_scenario = dowMembers, c_qty = None, c_now = 1 \<rparr>]
         (construct initialSettings (\<lambda>i. 0)))"
proof -
  have "firstFill 1 0 \<noteq> firstFill 1 1"
    using firstFill_ts [of 1 0] firstFill_ts [of 1 1] by auto
  then show ?thesis
    by (simp add: submitAll_Cons_fst submitQuote_seeded_fill del: submitAll.simps(2))
qed

theorem seeded_determinism_up_to_clock_witness:
  "seed initialSettings = Some 20250101
   \<and> map eraseResultTs
        (fst (submitAll [\<lparr> c_quote = highQuote, c_scenario = dowMembers, c_qty = None, c_now = 0 \<rparr>]
           (construct initialSettings (\<lambda>i. 0))))
     = map eraseResultTs
        (fst (submitAll [\<lparr> c_quote = highQuote, c_scenario = dowMembers, c_qty = None, c_now = 1 \<rparr>]
           (construct initialSettings (\<lambda>i. 1))))
   \<and> sameButTs
        (snd (submitAll [\<lparr> c_quote = highQuote, c_scenario = dowMembers, c_qty = None, c_now = 0 \<rparr>]
           (construct initialSettings (\<lambda>i. 0))))
        (snd (submitAll [\<lparr> c_quote = highQuote, c_scenario = dowMembers, c_qty = None, c_now = 1 \<rparr>]
           (construct initialSettings (\<lambda>i. 1))))
   \<and> submitAll [\<lparr> c_quote = highQuote, c_scenario = dowMembers, c_qty = None, c_now = 0 \<rparr>]
           (construct initialSettings (\<lambda>i. 0))
     = submitAll [\<lparr> c_quote = highQuote, c_scenario = dowMembers, c_qty = None, c_now = 0 \<rparr>]
           (construct initialSettings (\<lambda>i. 1))"
  using seeded_determinism_up_to_clock [of initialSettings 20250101
      "[\<lparr> c_quote = highQuote, c_scenario = dowMembers, c_qty = None, c_now = 0 \<rparr>]"
      "[\<lparr> c_quote = highQuote, c_scenario = dowMembers, c_qty = None, c_now = 1 \<rparr>]"
      "\<lambda>i. 0" "\<lambda>i. 1"]
    seeded_determinism_up_to_clock [of initialSettings 20250101
      "[\<lparr> c_quote = highQuote, c_scenario = dowMembers, c_qty = None, c_now = 0 \<rparr>]"
      "[\<lparr> c_quote = highQuote, c_scenario = dowMembers, c_qty = None, c_now = 0 \<rparr>]"
      "\<lambda>i. 0" "\<lambda>i. 1"]
  by (simp add: seed_initialSettings del: submitAll.simps)

subsection \<open>The default quote\<close>

lemma seed_skewSettings: "seed skewSettings = Some 20250101"
  by (simp add: skewSettings_def initialSettings_def)

lemma limit_skewSettings: "inventoryLimit skewSettings = 1"
  by (simp add: skewSettings_def)

lemma fresh_state:
  "state (construct st env)
     = \<lparr> cash = 0, inv = 0, realized = 0, lastMark = None, fills = [] \<rparr>"
  by (simp add: construct_def)

lemma longEngine_reached:
  "state longEngine
     = \<lparr> cash = - 1000, inv = 1, realized = 0, lastMark = Some 30, fills = [firstFill 1 0] \<rparr>
   \<and> settings longEngine = skewSettings"
proof -
  have c: "candidate 1000 2000 1 dowMembers 0 (construct skewSettings (\<lambda>i. 0))
     = (Some (firstFill 1 0), Mulberry32 1219980244)"
    unfolding firstFill_def
    by (rule candidate_seeded) (simp_all add: rng_seeded seed_skewSettings fresh_fields)
  have f: "side (firstFill 1 0) = BUY" "qty (firstFill 1 0) = 1" "price (firstFill 1 0) = 1000"
    by (simp_all add: firstFill_def)
  have tv: "trueValue dowMembers = 30" by (simp add: dowMembers_def)
  show ?thesis
    unfolding longEngine_def
    by (simp add: submitQuote_def quoteSanity_highQuote c f tv fresh_fields fresh_state
        limit_skewSettings applyFill_def Let_def del: quoteSanity.simps)
qed

lemma defaultQuote_bid_positive: "0 < q_bid (fst (defaultQuote estimate e))"
  by (simp add: defaultQuote_def Let_def less_max_iff_disj)

text \<open>
  Claim C6. The bid returned by \<open>defaultQuote\<close> is always positive, but the ask is not
  floored: in \<open>longEngine\<close>, reached from a fresh engine by one accepted fill, the inventory
  is at its limit 1, and \<open>defaultQuote 3\<close> returns the bid \<open>10 ^ -6\<close> with the ask \<open>-5\<close>,
  so \<open>bid < ask\<close> fails for the estimate 3.
\<close>

theorem defaultQuote_inverted:
  "inv (state longEngine) = 1
   \<and> fst (defaultQuote 3 longEngine) = \<lparr> q_bid = 1 / 10 ^ 6, q_ask = - 5 \<rparr>
   \<and> \<not> q_bid (fst (defaultQuote 3 longEngine)) < q_ask (fst (defaultQuote 3 longEngine))"
proof -
  have s: "inv (state longEngine) = 1" "settings longEngine = skewSettings"
    using longEngine_reached by simp_all
  have "fst (defaultQuote 3 longEngine) = \<lparr> q_bid = 1 / 10 ^ 6, q_ask = - 5 \<rparr>"
    by (simp add: defaultQuote_def s skewSettings_def initialSettings_def clamp_def Let_def)
  then show ?thesis using s(1) by simp
qed

end
